theory Spec2Isabelle
  imports Main
begin

section \<open>Object-level permissions of djem (\<open>src/djem/auth.py\<close>)\<close>

subsection \<open>Python values, exceptions and outcomes\<close>

text \<open>
  The access value that \<open>_get_object_permission\<close> computes and caches is an untyped Python
  value: \<open>False\<close>, \<open>None\<close>, or whatever the access method of the object returned. The
  code tests it with \<open>not\<close>, \<open>or\<close> and \<open>is None\<close>, so the model keeps the value and its
  truthiness apart.
\<close>

datatype pyval = PyNone | PyBool bool | PyInt int | PyStr string

fun truthy :: "pyval \<Rightarrow> bool" where
  "truthy PyNone = False"
| "truthy (PyBool b) = b"
| "truthy (PyInt i) = (i \<noteq> 0)"
| "truthy (PyStr s) = (s \<noteq> [])"

text \<open>Python's \<open>a or b\<close>: the first operand when it is truthy, the second otherwise.\<close>

definition py_or :: "pyval \<Rightarrow> pyval \<Rightarrow> pyval" where
  "py_or a b = (if truthy a then a else b)"

datatype py_error = PermissionDenied | AttributeError | TypeError | OtherError string

datatype 'a outcome = Return 'a | Raise py_error

subsection \<open>String formatting\<close>

definition digit_char :: "nat \<Rightarrow> char" where
  "digit_char n = ''0123456789'' ! n"

fun show_nat :: "nat \<Rightarrow> string" where
  "show_nat n = (if n < 10 then [digit_char n] else show_nat (n div 10) @ [digit_char (n mod 10)])"

declare show_nat.simps [simp del]

text \<open>\<open>'{0}'.format(v)\<close>, that is \<open>str(v)\<close>.\<close>

fun py_format :: "pyval \<Rightarrow> string" where
  "py_format PyNone = ''None''"
| "py_format (PyBool b) = (if b then ''True'' else ''False'')"
| "py_format (PyInt i) = (if i < 0 then CHR ''-'' # show_nat (nat (- i)) else show_nat (nat i))"
| "py_format (PyStr s) = s"

text \<open>\<open>perm.split('.')[-1]\<close>: what follows the last dot, the whole string when there is none.\<close>

definition last_segment :: "string \<Rightarrow> string" where
  "last_segment perm = rev (takeWhile (\<lambda>c. c \<noteq> CHR ''.'') (rev perm))"

subsection \<open>The user object, the object under test and the observable calls\<close>

text \<open>
  \<open>from_name\<close> is only ever \<open>'user'\<close> or \<open>'group'\<close> in \<open>_get_object_permission\<close>; the
  aggregating \<open>_get_object_permissions\<close> also accepts \<open>None\<close> (an absent \<open>source\<close>).
\<close>

datatype source = User | Group

fun source_name :: "source \<Rightarrow> string" where
  "source_name User = ''user''"
| "source_name Group = ''group''"

text \<open>
  The user object as the backend reads it. \<open>has_model_perm\<close> stands for the answer of the
  external call \<open>user_obj.has_perm(perm)\<close> (Django's model-level check). \<open>olp_cache\<close> is
  the attribute \<open>_olp_cache\<close>, \<open>None\<close> while the attribute does not exist. The last three
  fields say whether Django's model-level cache attributes \<open>_user_perm_cache\<close>,
  \<open>_group_perm_cache\<close> and \<open>_perm_cache\<close> currently exist on the instance; Django's
  own backend creates them when it first computes the user's permissions, which the model
  does not follow.
\<close>

record principal =
  user_pk :: nat
  is_active :: bool
  is_superuser :: bool
  is_anonymous :: bool
  groups :: "nat list"
  has_model_perm :: "string \<Rightarrow> bool"
  olp_cache :: "(string \<rightharpoonup> pyval) option"
  user_perm_cache :: bool
  group_perm_cache :: bool
  perm_cache :: bool

text \<open>
  An access method receives the user object (source \<open>user\<close>) or the user's groups
  (\<open>user_obj.groups.all()\<close>, source \<open>group\<close>); it returns a value or raises.
\<close>

datatype pred_arg = UserArg principal | GroupsArg "nat list"

datatype attr = Method "pred_arg \<Rightarrow> pyval outcome" | Plain pyval

record entity =
  pk :: pyval
  app_label :: string
  model_name :: string
  attrs :: "string \<rightharpoonup> attr"

text \<open>
  The calls the backend makes to its collaborators, in order: the model-level check and
  the invocation of an access method (the object's key and the method's name).
\<close>

datatype event = ModelPermCheck string | PredicateCall pyval string

record state =
  user_obj :: principal
  calls :: "event list"

definition log_call :: "event \<Rightarrow> state \<Rightarrow> state" where
  "log_call e st = st\<lparr>calls := calls st @ [e]\<rparr>"

subsection \<open>\<open>ObjectPermissionsBackend._get_object_permission\<close>\<close>

definition perm_cache_name :: "source \<Rightarrow> string \<Rightarrow> pyval \<Rightarrow> string" where
  "perm_cache_name from_name perm obj_pk =
     source_name from_name @ ''-'' @ perm @ ''-'' @ py_format obj_pk"

definition access_fn_name :: "source \<Rightarrow> string \<Rightarrow> string" where
  "access_fn_name from_name perm = ''_'' @ source_name from_name @ ''_can_'' @ last_segment perm"

text \<open>\<open>perm_cache[perm_cache_name] = access\<close>\<close>

definition cache_store :: "string \<Rightarrow> pyval \<Rightarrow> state \<Rightarrow> state" where
  "cache_store name access st =
     st\<lparr>user_obj := (user_obj st)\<lparr>olp_cache :=
        Some ((case olp_cache (user_obj st) of None \<Rightarrow> Map.empty | Some c \<Rightarrow> c)(name \<mapsto> access))\<rparr>\<rparr>"

text \<open>
  The \<open>try\<close> block of lines 165 to 171: reading \<open>_olp_cache\<close> creates the empty
  dictionary when the attribute does not exist.
\<close>

definition ensure_cache :: "state \<Rightarrow> state" where
  "ensure_cache st =
     (case olp_cache (user_obj st) of
        None \<Rightarrow> st\<lparr>user_obj := (user_obj st)\<lparr>olp_cache := Some Map.empty\<rparr>\<rparr>
      | Some c \<Rightarrow> st)"

definition cache_lookup :: "state \<Rightarrow> string \<Rightarrow> pyval option" where
  "cache_lookup st name = (case olp_cache (user_obj st) of None \<Rightarrow> None | Some c \<Rightarrow> c name)"

text \<open>
  Lines 194 to 197: \<open>access_fn(user_obj)\<close> for the source \<open>user\<close>,
  \<open>access_fn(user_obj.groups.all())\<close> otherwise.
\<close>

definition method_arg :: "source \<Rightarrow> principal \<Rightarrow> pred_arg" where
  "method_arg from_name u = (if from_name = User then UserArg u else GroupsArg (groups u))"

text \<open>
  Lines 181 to 199: look the access method up by name and call it. The result is the
  value of \<open>access\<close>, or the exception that leaves the function.
\<close>

definition call_access_fn :: "source \<Rightarrow> string \<Rightarrow> entity \<Rightarrow> state \<Rightarrow> pyval outcome \<times> state" where
  "call_access_fn from_name perm obj st =
     (case attrs obj (access_fn_name from_name perm) of
        None \<Rightarrow> (Return PyNone, st)
      | Some (Plain v) \<Rightarrow> (if \<not> truthy v then (Return PyNone, st) else (Raise TypeError, st))
      | Some (Method access_fn) \<Rightarrow>
          (let st' = log_call (PredicateCall (pk obj) (access_fn_name from_name perm)) st
           in case access_fn (method_arg from_name (user_obj st)) of
                Return v \<Rightarrow> (Return v, st')
              | Raise PermissionDenied \<Rightarrow> (Return (PyBool False), st')
              | Raise e \<Rightarrow> (Raise e, st')))"

definition get_object_permission :: "string \<Rightarrow> state \<Rightarrow> entity \<Rightarrow> source \<Rightarrow> pyval outcome \<times> state" where
  "get_object_permission perm st obj from_name =
     (if \<not> is_active (user_obj st) then (Return (PyBool False), st)
      else
        let st1 = ensure_cache st;
            name = perm_cache_name from_name perm (pk obj)
        in case cache_lookup st1 name of
             Some v \<Rightarrow> (Return v, st1)
           | None \<Rightarrow>
               (let st2 = log_call (ModelPermCheck perm) st1
                in if \<not> has_model_perm (user_obj st2) perm
                   then (Return (PyBool False), cache_store name (PyBool False) st2)
                   else (case call_access_fn from_name perm obj st2 of
                           (Return access, st3) \<Rightarrow> (Return access, cache_store name access st3)
                         | (Raise e, st3) \<Rightarrow> (Raise e, st3))))"

subsection \<open>\<open>ObjectPermissionsBackend.has_perm\<close>\<close>

definition has_perm :: "state \<Rightarrow> string \<Rightarrow> entity option \<Rightarrow> pyval outcome \<times> state" where
  "has_perm st perm obj_opt =
     (case obj_opt of
        None \<Rightarrow> (Return (PyBool False), st)
      | Some obj \<Rightarrow>
          (case get_object_permission perm st obj User of
             (Raise e, st1) \<Rightarrow> (Raise e, st1)
           | (Return user_access, st1) \<Rightarrow>
               (if \<not> truthy user_access
                then (case get_object_permission perm st1 obj Group of
                        (Raise e, st2) \<Rightarrow> (Raise e, st2)
                      | (Return group_access, st2) \<Rightarrow>
                          (Return (py_or user_access (py_or group_access
                             (PyBool (user_access = PyNone \<and> group_access = PyNone)))), st2))
                else (Return (py_or user_access (py_or PyNone
                        (PyBool (user_access = PyNone \<and> PyNone = PyNone)))), st1))))"

subsection \<open>\<open>ObjectPermissionsBackend._get_object_permissions\<close> and its three entry points\<close>

text \<open>
  The deployment: the rows of Django's \<open>Permission\<close> table as triples (app label, model
  name, codename), and the setting \<open>DJEM_UNIVERSAL_OLP\<close> (\<open>False\<close> when unset).
\<close>

record env =
  permissions :: "(string \<times> string \<times> string) list"
  universal_olp :: bool

text \<open>Lines 216 to 221: the permissions of the object's model, as \<open>app.codename\<close>.\<close>

definition perms_for_model :: "env \<Rightarrow> entity \<Rightarrow> string list" where
  "perms_for_model ev obj =
     map (\<lambda>(app, model, name). app @ ''.'' @ name)
       (filter (\<lambda>(app, model, name). app = app_label obj \<and> model = model_name obj)
          (permissions ev))"

text \<open>
  The body of the loop of lines 230 to 247 for one permission: whether \<open>perm\<close> is added.
  \<open>from_name\<close> is \<open>None\<close> (both sources), \<open>'user'\<close> or \<open>'group'\<close>.
\<close>

definition perm_granted :: "state \<Rightarrow> entity \<Rightarrow> source option \<Rightarrow> string \<Rightarrow> bool outcome \<times> state" where
  "perm_granted st obj from_name perm =
     (case (if from_name \<noteq> Some Group then get_object_permission perm st obj User
            else (Return PyNone, st)) of
        (Raise e, st1) \<Rightarrow> (Raise e, st1)
      | (Return user_access, st1) \<Rightarrow>
          (case (if \<not> truthy user_access \<and> from_name \<noteq> Some User
                 then get_object_permission perm st1 obj Group
                 else (Return PyNone, st1)) of
             (Raise e, st2) \<Rightarrow> (Raise e, st2)
           | (Return group_access, st2) \<Rightarrow>
               (Return (truthy user_access \<or> truthy group_access
                        \<or> (user_access = PyNone \<and> group_access = PyNone)), st2)))"

fun perms_loop :: "state \<Rightarrow> entity \<Rightarrow> source option \<Rightarrow> string list \<Rightarrow> string set
    \<Rightarrow> string set outcome \<times> state" where
  "perms_loop st obj from_name [] perms = (Return perms, st)"
| "perms_loop st obj from_name (perm # rest) perms =
     (case perm_granted st obj from_name perm of
        (Raise e, st') \<Rightarrow> (Raise e, st')
      | (Return add, st') \<Rightarrow>
          perms_loop st' obj from_name rest (if add then insert perm perms else perms))"

definition get_object_permissions :: "env \<Rightarrow> state \<Rightarrow> entity option \<Rightarrow> source option
    \<Rightarrow> string set outcome \<times> state" where
  "get_object_permissions ev st obj_opt from_name =
     (case obj_opt of
        None \<Rightarrow> (Return {}, st)
      | Some obj \<Rightarrow>
          (if \<not> is_active (user_obj st) \<or> is_anonymous (user_obj st) then (Return {}, st)
           else if is_superuser (user_obj st) \<and> \<not> universal_olp ev
             then (Return (set (perms_for_model ev obj)), st)
           else perms_loop st obj from_name (perms_for_model ev obj) {}))"

definition get_user_permissions :: "env \<Rightarrow> state \<Rightarrow> entity option \<Rightarrow> string set outcome \<times> state" where
  "get_user_permissions ev st obj_opt = get_object_permissions ev st obj_opt (Some User)"

definition get_group_permissions :: "env \<Rightarrow> state \<Rightarrow> entity option \<Rightarrow> string set outcome \<times> state" where
  "get_group_permissions ev st obj_opt = get_object_permissions ev st obj_opt (Some Group)"

definition get_all_permissions :: "env \<Rightarrow> state \<Rightarrow> entity option \<Rightarrow> string set outcome \<times> state" where
  "get_all_permissions ev st obj_opt = get_object_permissions ev st obj_opt None"

subsection \<open>\<open>OLPMixin\<close>\<close>

text \<open>
  \<open>OLPMixin.__init__\<close>: the instance starts with \<open>_olp_cache = {}\<close>; Django's model-level
  cache attributes do not exist yet.
\<close>

definition OLPMixin_init :: "nat \<Rightarrow> bool \<Rightarrow> bool \<Rightarrow> bool \<Rightarrow> nat list \<Rightarrow> (string \<Rightarrow> bool) \<Rightarrow> principal" where
  "OLPMixin_init uid active super anon gs mp =
     \<lparr>user_pk = uid, is_active = active, is_superuser = super, is_anonymous = anon,
      groups = gs, has_model_perm = mp, olp_cache = Some Map.empty,
      user_perm_cache = False, group_perm_cache = False, perm_cache = False\<rparr>"

text \<open>
  \<open>OLPMixin.clear_perm_cache\<close>: the assignment, then three \<open>del\<close> statements; \<open>del\<close> of
  an attribute that does not exist raises \<open>AttributeError\<close>, and what was done before it
  stays done.
\<close>

definition clear_perm_cache :: "state \<Rightarrow> unit outcome \<times> state" where
  "clear_perm_cache st =
     (let st1 = st\<lparr>user_obj := (user_obj st)\<lparr>olp_cache := Some Map.empty\<rparr>\<rparr>
      in if \<not> user_perm_cache (user_obj st1) then (Raise AttributeError, st1)
         else let st2 = st1\<lparr>user_obj := (user_obj st1)\<lparr>user_perm_cache := False\<rparr>\<rparr>
           in if \<not> group_perm_cache (user_obj st2) then (Raise AttributeError, st2)
              else let st3 = st2\<lparr>user_obj := (user_obj st2)\<lparr>group_perm_cache := False\<rparr>\<rparr>
                in if \<not> perm_cache (user_obj st3) then (Raise AttributeError, st3)
                   else (Return (), st3\<lparr>user_obj := (user_obj st3)\<lparr>perm_cache := False\<rparr>\<rparr>))"

text \<open>
  Modelled from the spec: the inherited \<open>has_perm\<close> that \<open>OLPMixin.has_perm\<close> delegates to
  and the helper \<open>_user_has_perm\<close> belong to Django and are not in the repository.
  Following section 4.3 of the specification, an active superuser is granted at once;
  otherwise the question goes to the backends: the catalog answers when no object is
  given, \<open>ObjectPermissionsBackend.has_perm\<close> answers for an object, and a
  \<open>PermissionDenied\<close> raised by a backend is a refusal.
\<close>

definition user_has_perm :: "state \<Rightarrow> string \<Rightarrow> entity option \<Rightarrow> pyval outcome \<times> state" where
  "user_has_perm st perm obj_opt =
     (if obj_opt = None \<and> has_model_perm (user_obj st) perm then (Return (PyBool True), st)
      else case has_perm st perm obj_opt of
             (Return v, st') \<Rightarrow> (Return (PyBool (truthy v)), st')
           | (Raise PermissionDenied, st') \<Rightarrow> (Return (PyBool False), st')
           | (Raise e, st') \<Rightarrow> (Raise e, st'))"

definition super_has_perm :: "state \<Rightarrow> string \<Rightarrow> entity option \<Rightarrow> pyval outcome \<times> state" where
  "super_has_perm st perm obj_opt =
     (if is_active (user_obj st) \<and> is_superuser (user_obj st) then (Return (PyBool True), st)
      else user_has_perm st perm obj_opt)"

text \<open>\<open>OLPMixin.has_perm\<close>, lines 31 to 42.\<close>

definition OLPMixin_has_perm :: "env \<Rightarrow> state \<Rightarrow> string \<Rightarrow> entity option \<Rightarrow> pyval outcome \<times> state" where
  "OLPMixin_has_perm ev st perm obj_opt =
     (if \<not> universal_olp ev then super_has_perm st perm obj_opt
      else if obj_opt = None \<and> is_active (user_obj st) \<and> is_superuser (user_obj st)
        then (Return (PyBool True), st)
      else user_has_perm st perm obj_opt)"

subsection \<open>The three-valued decision of the specification\<close>

text \<open>
  The decision that sections 4.2 and 4.3 of the specification assign to one source when
  nothing is cached for it, written after the specification's words to be set beside the
  code: a user without the model-level permission is \<open>Denied\<close>; otherwise the object's
  access method decides: \<open>NoOpinion\<close> when the object has none, \<open>Granted\<close> when it
  returns a truthy value, \<open>Denied\<close> when it returns a falsy value or raises
  \<open>PermissionDenied\<close>. There is no decision (\<open>None\<close>) when the invocation fails: the
  method raises another exception, or the attribute is not a method.
\<close>

datatype decision = Granted | Denied | NoOpinion

definition source_decision :: "string \<Rightarrow> state \<Rightarrow> entity \<Rightarrow> source \<Rightarrow> decision option" where
  "source_decision perm st obj from_name =
     (if \<not> has_model_perm (user_obj st) perm then Some Denied
      else case attrs obj (access_fn_name from_name perm) of
             None \<Rightarrow> Some NoOpinion
           | Some (Plain v) \<Rightarrow> None
           | Some (Method f) \<Rightarrow>
               (case f (method_arg from_name (user_obj (ensure_cache st))) of
                  Return v \<Rightarrow> Some (if truthy v then Granted else Denied)
                | Raise e \<Rightarrow> if e = PermissionDenied then Some Denied else None))"

subsection \<open>Sample objects, users and deployments\<close>

text \<open>
  An access method that grants to one user only, one that always raises, and one that
  returns a fixed value.
\<close>

definition owner_only :: "nat \<Rightarrow> pred_arg \<Rightarrow> pyval outcome" where
  "owner_only owner arg =
     (case arg of UserArg u \<Rightarrow> Return (PyBool (user_pk u = owner))
                | GroupsArg gs \<Rightarrow> Return (PyBool False))"

definition raising :: "py_error \<Rightarrow> pred_arg \<Rightarrow> pyval outcome" where
  "raising e arg = Raise e"

definition returning :: "pyval \<Rightarrow> pred_arg \<Rightarrow> pyval outcome" where
  "returning v arg = Return v"

definition sample_entity :: "(string \<rightharpoonup> attr) \<Rightarrow> entity" where
  "sample_entity as = \<lparr>pk = PyInt 7, app_label = ''app'', model_name = ''x'', attrs = as\<rparr>"

text \<open>A user built by \<open>OLPMixin.__init__\<close> who holds \<open>app.delete_x\<close> at the model level.\<close>

definition sample_user :: "nat \<Rightarrow> bool \<Rightarrow> bool \<Rightarrow> bool \<Rightarrow> principal" where
  "sample_user uid active super anon =
     OLPMixin_init uid active super anon [] (\<lambda>p. p = ''app.delete_x'')"

text \<open>
  An active superuser: Django's \<open>has_perm\<close> answers \<open>True\<close> to every model-level
  question about one.
\<close>

definition sample_superuser :: "nat \<Rightarrow> principal" where
  "sample_superuser uid = OLPMixin_init uid True True False [] (\<lambda>p. True)"

definition start :: "principal \<Rightarrow> state" where
  "start u = \<lparr>user_obj = u, calls = []\<rparr>"

definition sample_env :: "bool \<Rightarrow> env" where
  "sample_env universal =
     \<lparr>permissions = [(''app'', ''x'', ''view_x''), (''app'', ''x'', ''delete_x''),
                      (''app'', ''y'', ''view_y'')],
      universal_olp = universal\<rparr>"

section \<open>Basic facts about the state\<close>

lemma user_obj_log_call: "user_obj (log_call e st) = user_obj st"
  by (simp add: log_call_def)

lemma calls_log_call: "calls (log_call e st) = calls st @ [e]"
  by (simp add: log_call_def)

lemma calls_ensure_cache: "calls (ensure_cache st) = calls st"
  by (simp add: ensure_cache_def split: option.splits)

lemma calls_cache_store: "calls (cache_store n v st) = calls st"
  by (simp add: cache_store_def)

lemma cache_lookup_ensure_cache: "cache_lookup (ensure_cache st) = cache_lookup st"
  by (simp add: fun_eq_iff cache_lookup_def ensure_cache_def split: option.splits)

lemma cache_lookup_log_call: "cache_lookup (log_call e st) = cache_lookup st"
  by (simp add: fun_eq_iff cache_lookup_def log_call_def)

lemma cache_lookup_cache_store: "cache_lookup (cache_store n v st) = (cache_lookup st)(n \<mapsto> v)"
  by (simp add: fun_eq_iff cache_lookup_def cache_store_def split: option.splits)

lemma ensure_cache_present: "cache_lookup st k = Some v \<Longrightarrow> ensure_cache st = st"
  by (simp add: cache_lookup_def ensure_cache_def split: option.splits)

lemma is_active_ensure_cache: "is_active (user_obj (ensure_cache st)) = is_active (user_obj st)"
  by (simp add: ensure_cache_def split: option.splits)

lemma is_active_cache_store: "is_active (user_obj (cache_store n v st)) = is_active (user_obj st)"
  by (simp add: cache_store_def)

lemma has_model_perm_ensure_cache:
  "has_model_perm (user_obj (ensure_cache st)) = has_model_perm (user_obj st)"
  by (simp add: ensure_cache_def split: option.splits)

lemma groups_ensure_cache: "groups (user_obj (ensure_cache st)) = groups (user_obj st)"
  by (simp add: ensure_cache_def split: option.splits)

section \<open>Resolving one source\<close>

lemma call_access_fn_absent:
  "attrs obj (access_fn_name from_name perm) = None \<Longrightarrow>
     call_access_fn from_name perm obj st = (Return PyNone, st)"
  by (simp add: call_access_fn_def)

lemma call_access_fn_method:
  "attrs obj (access_fn_name from_name perm) = Some (Method f) \<Longrightarrow>
     call_access_fn from_name perm obj st =
       (case f (method_arg from_name (user_obj st)) of
          Return v \<Rightarrow> Return v
        | Raise e \<Rightarrow> if e = PermissionDenied then Return (PyBool False) else Raise e,
        log_call (PredicateCall (pk obj) (access_fn_name from_name perm)) st)"
  by (simp add: call_access_fn_def Let_def split: outcome.splits py_error.splits)

lemma call_access_fn_frame:
  "call_access_fn from_name perm obj st = (r, st') \<Longrightarrow>
     user_obj st' = user_obj st \<and> (\<exists>es. calls st' = calls st @ es)"
  by (auto simp: call_access_fn_def Let_def user_obj_log_call calls_log_call
           split: option.splits attr.splits outcome.splits py_error.splits if_splits)

lemma cache_lookup_call_access_fn:
  "call_access_fn from_name perm obj st = (r, st') \<Longrightarrow> cache_lookup st' = cache_lookup st"
  by (auto simp: cache_lookup_def fun_eq_iff dest!: call_access_fn_frame)

lemma get_object_permission_inactive:
  "\<not> is_active (user_obj st) \<Longrightarrow>
     get_object_permission perm st obj from_name = (Return (PyBool False), st)"
  by (simp add: get_object_permission_def)

lemma get_object_permission_hit:
  assumes "is_active (user_obj st)"
      and "cache_lookup st (perm_cache_name from_name perm (pk obj)) = Some v"
  shows "get_object_permission perm st obj from_name = (Return v, st)"
  using assms
  by (simp add: get_object_permission_def Let_def cache_lookup_ensure_cache ensure_cache_present)

lemma get_object_permission_miss:
  assumes "is_active (user_obj st)"
      and "cache_lookup st (perm_cache_name from_name perm (pk obj)) = None"
  shows "get_object_permission perm st obj from_name =
     (let st2 = log_call (ModelPermCheck perm) (ensure_cache st);
          name = perm_cache_name from_name perm (pk obj)
      in if \<not> has_model_perm (user_obj st) perm
         then (Return (PyBool False), cache_store name (PyBool False) st2)
         else (case call_access_fn from_name perm obj st2 of
                 (Return access, st3) \<Rightarrow> (Return access, cache_store name access st3)
               | (Raise e, st3) \<Rightarrow> (Raise e, st3)))"
  using assms
  by (simp add: get_object_permission_def Let_def cache_lookup_ensure_cache
        user_obj_log_call has_model_perm_ensure_cache)

lemma get_object_permission_active:
  assumes "get_object_permission perm st obj from_name = (r, st')"
  shows "is_active (user_obj st') = is_active (user_obj st)"
  using assms
  by (auto simp: get_object_permission_def Let_def is_active_ensure_cache
        is_active_cache_store user_obj_log_call
        split: if_splits option.splits prod.splits outcome.splits dest!: call_access_fn_frame)


lemma get_object_permission_cached:
  assumes "is_active (user_obj st)"
      and "get_object_permission perm st obj from_name = (Return v, st')"
  shows "cache_lookup st' (perm_cache_name from_name perm (pk obj)) = Some v"
proof (cases "cache_lookup st (perm_cache_name from_name perm (pk obj))")
  case (Some w)
  with assms show ?thesis by (simp add: get_object_permission_hit)
next
  case None
  with assms show ?thesis
    by (auto simp: get_object_permission_miss Let_def cache_lookup_cache_store
             split: if_splits prod.splits outcome.splits)
qed

lemma get_object_permission_keeps:
  assumes "get_object_permission perm st obj from_name = (r, st')"
      and "cache_lookup st k = Some w"
  shows "cache_lookup st' k = Some w"
proof (cases "is_active (user_obj st)")
  case False
  with assms show ?thesis by (simp add: get_object_permission_inactive)
next
  case True
  show ?thesis
  proof (cases "cache_lookup st (perm_cache_name from_name perm (pk obj))")
    case (Some x)
    with True assms show ?thesis by (simp add: get_object_permission_hit)
  next
    case None
    with assms have "k \<noteq> perm_cache_name from_name perm (pk obj)" by auto
    with True None assms show ?thesis
      by (auto simp: get_object_permission_miss Let_def cache_lookup_cache_store
             cache_lookup_log_call cache_lookup_ensure_cache
             split: if_splits prod.splits outcome.splits dest!: cache_lookup_call_access_fn)
  qed
qed

text \<open>What a resolution does on a cache miss, by what the caller can observe.\<close>

lemma miss_no_model_perm:
  assumes "is_active (user_obj st)" and "\<not> has_model_perm (user_obj st) perm"
      and "cache_lookup st (perm_cache_name from_name perm (pk obj)) = None"
      and "get_object_permission perm st obj from_name = (r, st')"
  shows "r = Return (PyBool False) \<and> calls st' = calls st @ [ModelPermCheck perm]
         \<and> cache_lookup st' =
             (cache_lookup st)(perm_cache_name from_name perm (pk obj) \<mapsto> PyBool False)"
  using assms
  by (auto simp: get_object_permission_miss Let_def calls_cache_store calls_log_call
        calls_ensure_cache cache_lookup_cache_store cache_lookup_log_call
        cache_lookup_ensure_cache)

lemma miss_absent:
  assumes "is_active (user_obj st)" and "has_model_perm (user_obj st) perm"
      and "cache_lookup st (perm_cache_name from_name perm (pk obj)) = None"
      and "attrs obj (access_fn_name from_name perm) = None"
      and "get_object_permission perm st obj from_name = (r, st')"
  shows "r = Return PyNone \<and> calls st' = calls st @ [ModelPermCheck perm]
         \<and> cache_lookup st' =
             (cache_lookup st)(perm_cache_name from_name perm (pk obj) \<mapsto> PyNone)"
  using assms
  by (auto simp: get_object_permission_miss Let_def calls_cache_store calls_log_call
        call_access_fn_absent calls_ensure_cache cache_lookup_cache_store
        cache_lookup_log_call cache_lookup_ensure_cache)

lemma miss_method:
  assumes "is_active (user_obj st)" and "has_model_perm (user_obj st) perm"
      and "cache_lookup st (perm_cache_name from_name perm (pk obj)) = None"
      and "attrs obj (access_fn_name from_name perm) = Some (Method f)"
      and "get_object_permission perm st obj from_name = (r, st')"
  shows "calls st' = calls st @ [ModelPermCheck perm,
                                 PredicateCall (pk obj) (access_fn_name from_name perm)]
         \<and> (case f (method_arg from_name (user_obj (ensure_cache st))) of
               Return v \<Rightarrow> r = Return v \<and> cache_lookup st' =
                  (cache_lookup st)(perm_cache_name from_name perm (pk obj) \<mapsto> v)
             | Raise e \<Rightarrow>
                 if e = PermissionDenied
                 then r = Return (PyBool False) \<and> cache_lookup st' =
                  (cache_lookup st)(perm_cache_name from_name perm (pk obj) \<mapsto> PyBool False)
                 else r = Raise e \<and> cache_lookup st' = cache_lookup st)"
  using assms
  by (auto simp: get_object_permission_miss Let_def calls_cache_store calls_log_call
        call_access_fn_method user_obj_log_call
        calls_ensure_cache cache_lookup_cache_store cache_lookup_log_call
        cache_lookup_ensure_cache
        split: outcome.splits if_splits)

lemma get_object_permission_frame:
  assumes "get_object_permission perm st obj from_name = (r, st')"
  shows "user_obj st' = (user_obj st)\<lparr>olp_cache := olp_cache (user_obj st')\<rparr>"
  using assms
  by (auto simp: get_object_permission_def Let_def ensure_cache_def cache_store_def
        user_obj_log_call
        split: if_splits option.splits prod.splits outcome.splits dest!: call_access_fn_frame)

lemma get_object_permission_has_model_perm:
  assumes "get_object_permission perm st obj from_name = (r, st')"
  shows "has_model_perm (user_obj st') = has_model_perm (user_obj st)"
proof -
  have "has_model_perm (user_obj st')
          = has_model_perm ((user_obj st)\<lparr>olp_cache := olp_cache (user_obj st')\<rparr>)"
    using get_object_permission_frame [OF assms] by simp
  then show ?thesis by simp
qed

lemma perm_cache_name_sources:
  "perm_cache_name User perm k \<noteq> perm_cache_name Group perm' k'"
  by (simp add: perm_cache_name_def)

section \<open>The decision of \<open>has_perm\<close>\<close>

lemma has_perm_Some:
  "has_perm st perm (Some obj) =
     (case get_object_permission perm st obj User of
        (Raise e, st1) \<Rightarrow> (Raise e, st1)
      | (Return ua, st1) \<Rightarrow>
          if truthy ua then (Return ua, st1)
          else (case get_object_permission perm st1 obj Group of
                  (Raise e, st2) \<Rightarrow> (Raise e, st2)
                | (Return ga, st2) \<Rightarrow>
                    (Return (if truthy ga then ga else PyBool (ua = PyNone \<and> ga = PyNone)), st2)))"
  by (auto simp: has_perm_def py_or_def split: prod.splits outcome.splits)

section \<open>The text of a cache key\<close>

lemma digit_char_not_dash:
  assumes "n < 10"
  shows "digit_char n \<noteq> CHR ''-''"
proof -
  have "digit_char n \<in> set ''0123456789''"
    unfolding digit_char_def using assms by (intro nth_mem) simp
  then show ?thesis by auto
qed

lemma digit_char_inj:
  assumes "m < 10" and "n < 10" and "digit_char m = digit_char n"
  shows "m = n"
proof -
  have "distinct ''0123456789''" by simp
  with assms show ?thesis
    by (simp add: digit_char_def nth_eq_iff_index_eq del: nth_Cons_numeral)
qed

lemma show_nat_no_dash: "CHR ''-'' \<notin> set (show_nat n)"
proof (induction n rule: show_nat.induct)
  case (1 n)
  show ?case
  proof (cases "n < 10")
    case True
    then show ?thesis using digit_char_not_dash [of n] by (simp add: show_nat.simps)
  next
    case False
    then show ?thesis
      using 1 digit_char_not_dash [of "n mod 10"]
      by (subst show_nat.simps) auto
  qed
qed

lemma show_nat_length: "length (show_nat n) = 1 \<longleftrightarrow> n < 10"
proof (cases "n < 10")
  case True
  then show ?thesis by (simp add: show_nat.simps)
next
  case False
  have "show_nat (n div 10) \<noteq> []" by (subst show_nat.simps) simp
  with False show ?thesis by (subst show_nat.simps) (simp add: Suc_le_eq)
qed

lemma show_nat_inj: "show_nat m = show_nat n \<Longrightarrow> m = n"
proof (induction m arbitrary: n rule: show_nat.induct)
  case (1 m)
  show ?case
  proof (cases "m < 10")
    case True
    with 1(2) have n: "n < 10" using show_nat_length [of m] show_nat_length [of n] by simp
    with True 1(2) show ?thesis by (simp add: show_nat.simps digit_char_inj)
  next
    case False
    with 1(2) have n: "\<not> n < 10" using show_nat_length [of m] show_nat_length [of n] by simp
    from False n 1(2)
    have "show_nat (m div 10) @ [digit_char (m mod 10)]
            = show_nat (n div 10) @ [digit_char (n mod 10)]"
      by (simp add: show_nat.simps [of m] show_nat.simps [of n])
    then have "show_nat (m div 10) = show_nat (n div 10)"
      and d: "digit_char (m mod 10) = digit_char (n mod 10)"
      by simp_all
    with 1(1) False have "m div 10 = n div 10" by simp
    moreover from d have "m mod 10 = n mod 10" by (simp add: digit_char_inj)
    ultimately show ?thesis by (metis div_mult_mod_eq)
  qed
qed

lemma split_first_occurrence:
  "c \<notin> set xs \<Longrightarrow> c \<notin> set ys \<Longrightarrow> xs @ c # us = ys @ c # vs \<Longrightarrow> xs = ys \<and> us = vs"
proof (induction xs arbitrary: ys)
  case Nil
  then show ?case by (cases ys) auto
next
  case (Cons x xs)
  then show ?case by (cases ys) auto
qed

lemma split_last_dash:
  assumes "CHR ''-'' \<notin> set f1" and "CHR ''-'' \<notin> set f2"
      and "p1 @ CHR ''-'' # f1 = p2 @ CHR ''-'' # f2"
  shows "p1 = p2 \<and> f1 = f2"
proof -
  from assms(3) have "rev (p1 @ CHR ''-'' # f1) = rev (p2 @ CHR ''-'' # f2)" by simp
  then have "rev f1 @ CHR ''-'' # rev p1 = rev f2 @ CHR ''-'' # rev p2" by simp
  moreover have "CHR ''-'' \<notin> set (rev f1)" "CHR ''-'' \<notin> set (rev f2)"
    using assms by simp_all
  ultimately have "rev f1 = rev f2 \<and> rev p1 = rev p2"
    by (rule split_first_occurrence [rotated 2])
  then show ?thesis by simp
qed

lemma source_name_prefix:
  "source_name s1 @ CHR ''-'' # r1 = source_name s2 @ CHR ''-'' # r2 \<Longrightarrow> s1 = s2 \<and> r1 = r2"
  by (cases s1; cases s2) auto

lemma perm_cache_name_inj:
  assumes "CHR ''-'' \<notin> set (py_format k1)" and "CHR ''-'' \<notin> set (py_format k2)"
      and "perm_cache_name s1 p1 k1 = perm_cache_name s2 p2 k2"
  shows "s1 = s2 \<and> p1 = p2 \<and> py_format k1 = py_format k2"
proof -
  from assms(3) have "source_name s1 @ CHR ''-'' # (p1 @ CHR ''-'' # py_format k1)
      = source_name s2 @ CHR ''-'' # (p2 @ CHR ''-'' # py_format k2)"
    by (simp add: perm_cache_name_def)
  then have "s1 = s2" and "p1 @ CHR ''-'' # py_format k1 = p2 @ CHR ''-'' # py_format k2"
    using source_name_prefix by blast+
  with assms(1,2) split_last_dash show ?thesis by blast
qed

text \<open>Unfolding everything a concrete run needs.\<close>

lemmas run_defs = start_def sample_user_def sample_entity_def sample_env_def OLPMixin_init_def
  owner_only_def raising_def returning_def method_arg_def
  has_perm_def get_object_permission_def call_access_fn_def cache_lookup_def cache_store_def
  ensure_cache_def log_call_def perm_cache_name_def access_fn_name_def last_segment_def
  show_nat.simps digit_char_def py_or_def Let_def

section \<open>The claims\<close>

subsection \<open>C1: the three-way truth table of \<open>has_perm\<close>\<close>

text \<open>
  What \<open>has_perm\<close> computes from the two access values: the value of the user source
  when it is truthy, without resolving the group source; otherwise a value that is truthy
  exactly when the value of the group source is truthy or both values are \<open>None\<close>.
\<close>

lemma has_perm_value_table:
  assumes "has_perm st perm (Some obj) = (Return r, st')"
  shows "\<exists>ua s1. get_object_permission perm st obj User = (Return ua, s1)
           \<and> (if truthy ua then r = ua \<and> st' = s1
               else \<exists>ga. get_object_permission perm s1 obj Group = (Return ga, st')
                      \<and> truthy r = (truthy ga \<or> (ua = PyNone \<and> ga = PyNone)))"
proof -
  from assms obtain ua s1 where u: "get_object_permission perm st obj User = (Return ua, s1)"
    by (auto simp: has_perm_Some split: prod.splits outcome.splits)
  show ?thesis
  proof (cases "truthy ua")
    case True
    with assms u have "r = ua \<and> st' = s1" by (simp add: has_perm_Some)
    with u True show ?thesis by simp
  next
    case False
    with assms u obtain ga where g: "get_object_permission perm s1 obj Group = (Return ga, st')"
      and r: "r = (if truthy ga then ga else PyBool (ua = PyNone \<and> ga = PyNone))"
      by (auto simp: has_perm_Some split: prod.splits outcome.splits)
    from r have "truthy r = (truthy ga \<or> (ua = PyNone \<and> ga = PyNone))" by auto
    with u g False show ?thesis by simp
  qed
qed

text \<open>
  Where no access method of the object returns \<open>None\<close>, the code and the specification
  agree: on a cache miss the value a resolution returns is truthy exactly when the
  specification's decision is \<open>Granted\<close> and is \<open>None\<close> exactly when it is
  \<open>NoOpinion\<close>, and \<open>has_perm\<close> follows the three-way table.
\<close>

lemma resolution_matches_decision:
  assumes act: "is_active (user_obj st)"
      and miss: "cache_lookup st (perm_cache_name from_name perm (pk obj)) = None"
      and nn: "\<forall>f a. attrs obj (access_fn_name from_name perm) = Some (Method f)
                 \<longrightarrow> f a \<noteq> Return PyNone"
      and d: "source_decision perm st obj from_name = Some d"
      and run: "get_object_permission perm st obj from_name = (r, st')"
  shows "\<exists>v. r = Return v \<and> (truthy v \<longleftrightarrow> d = Granted) \<and> (v = PyNone \<longleftrightarrow> d = NoOpinion)"
proof (cases "has_model_perm (user_obj st) perm")
  case False
  with d have "d = Denied" by (simp add: source_decision_def)
  with miss_no_model_perm [OF act False miss run] show ?thesis by simp
next
  case mp: True
  show ?thesis
  proof (cases "attrs obj (access_fn_name from_name perm)")
    case None
    with d mp have "d = NoOpinion" by (simp add: source_decision_def)
    with miss_absent [OF act mp miss None run] show ?thesis by simp
  next
    case (Some a)
    show ?thesis
    proof (cases a)
      case (Plain v)
      with Some d mp show ?thesis by (simp add: source_decision_def)
    next
      case (Method f)
      with Some have m: "attrs obj (access_fn_name from_name perm) = Some (Method f)" by simp
      note res = miss_method [OF act mp miss m run]
      show ?thesis
      proof (cases "f (method_arg from_name (user_obj (ensure_cache st)))")
        case (Return v)
        with nn m have "v \<noteq> PyNone" by metis
        moreover from Return d mp m have "d = (if truthy v then Granted else Denied)"
          by (simp add: source_decision_def)
        moreover from res Return have "r = Return v" by simp
        ultimately show ?thesis by simp
      next
        case (Raise e)
        with d mp m have e: "e = PermissionDenied" and "d = Denied"
          by (auto simp: source_decision_def split: if_splits)
        with res Raise show ?thesis by simp
      qed
    qed
  qed
qed

lemma source_decision_after_user:
  assumes "get_object_permission perm st obj User = (r, sa)"
  shows "source_decision perm sa obj Group = source_decision perm st obj Group"
proof -
  have u: "user_obj sa = (user_obj st)\<lparr>olp_cache := olp_cache (user_obj sa)\<rparr>"
    by (rule get_object_permission_frame [OF assms])
  have "groups (user_obj sa) = groups ((user_obj st)\<lparr>olp_cache := olp_cache (user_obj sa)\<rparr>)"
    using u by simp
  then have g: "groups (user_obj sa) = groups (user_obj st)" by simp
  have "has_model_perm (user_obj sa) = has_model_perm (user_obj st)"
    by (rule get_object_permission_has_model_perm [OF assms])
  with g show ?thesis
    by (auto simp: source_decision_def method_arg_def groups_ensure_cache
          split: option.splits attr.splits)
qed

lemma has_perm_agrees_unless_none:
  assumes act: "is_active (user_obj st)"
      and mu: "cache_lookup st (perm_cache_name User perm (pk obj)) = None"
      and mg: "cache_lookup st (perm_cache_name Group perm (pk obj)) = None"
      and nn: "\<forall>from_name f a. attrs obj (access_fn_name from_name perm) = Some (Method f)
                 \<longrightarrow> f a \<noteq> Return PyNone"
      and ud: "source_decision perm st obj User = Some ud"
      and gd: "source_decision perm st obj Group = Some gd"
  shows "\<exists>r st'. has_perm st perm (Some obj) = (Return r, st')
           \<and> truthy r = (ud = Granted \<or> gd = Granted \<or> (ud = NoOpinion \<and> gd = NoOpinion))"
proof -
  obtain ra sa where a: "get_object_permission perm st obj User = (ra, sa)"
    by (cases "get_object_permission perm st obj User")
  from nn have nu: "\<forall>f a. attrs obj (access_fn_name User perm) = Some (Method f)
                 \<longrightarrow> f a \<noteq> Return PyNone"
    and ng: "\<forall>f a. attrs obj (access_fn_name Group perm) = Some (Method f)
                 \<longrightarrow> f a \<noteq> Return PyNone" by blast+
  from resolution_matches_decision [OF act mu nu ud a]
  obtain ua where ra: "ra = Return ua" and ua1: "truthy ua \<longleftrightarrow> ud = Granted"
    and ua2: "ua = PyNone \<longleftrightarrow> ud = NoOpinion" by blast
  show ?thesis
  proof (cases "truthy ua")
    case True
    with a ra ua1 show ?thesis by (simp add: has_perm_Some)
  next
    case False
    obtain rb sb where b: "get_object_permission perm sa obj Group = (rb, sb)"
      by (cases "get_object_permission perm sa obj Group")
    have act_a: "is_active (user_obj sa)"
      using get_object_permission_active [OF a] act by simp
    have "cache_lookup sa (perm_cache_name Group perm (pk obj)) = None"
    proof (cases "cache_lookup sa (perm_cache_name Group perm (pk obj))")
      case None then show ?thesis .
    next
      case (Some w)
      from a ra act mu mg Some show ?thesis
        by (auto simp: get_object_permission_miss Let_def cache_lookup_cache_store
              cache_lookup_log_call cache_lookup_ensure_cache perm_cache_name_sources [symmetric]
              split: if_splits prod.splits outcome.splits dest!: cache_lookup_call_access_fn)
    qed
    moreover have "source_decision perm sa obj Group = Some gd"
      using source_decision_after_user [OF a] gd by simp
    ultimately obtain ga where rb: "rb = Return ga" and ga1: "truthy ga \<longleftrightarrow> gd = Granted"
      and ga2: "ga = PyNone \<longleftrightarrow> gd = NoOpinion"
      using resolution_matches_decision [OF act_a _ ng _ b] by blast
    from False a ra b rb ua1 ua2 ga1 ga2 show ?thesis
      by (auto simp: has_perm_Some)
  qed
qed

text \<open>
  Claim C1. The claim says that \<open>has_perm\<close> returns a true value exactly when the
  decision of the user source is \<open>Granted\<close>, or that of the group source is \<open>Granted\<close>,
  or both are \<open>NoOpinion\<close>, no access method existing for either source; \<open>Denied\<close> with
  \<open>NoOpinion\<close> gives a false value. The code stores what the access method returns and
  later tests the stored value with \<open>is None\<close>, so a method that returns \<open>None\<close> is
  taken for a missing one. Here the object has a user method that returns \<open>None\<close>, a
  falsy value, and no group method: the decisions are \<open>Denied\<close> and \<open>NoOpinion\<close>, the
  method is called, and \<open>has_perm\<close> returns \<open>True\<close>.
\<close>

theorem has_perm_none_return_granted:
  "source_decision ''app.delete_x'' (start (sample_user 1 True False False))
      (sample_entity [''_user_can_delete_x'' \<mapsto> Method (returning PyNone)]) User = Some Denied
   \<and> source_decision ''app.delete_x''
      (snd (get_object_permission ''app.delete_x'' (start (sample_user 1 True False False))
         (sample_entity [''_user_can_delete_x'' \<mapsto> Method (returning PyNone)]) User))
      (sample_entity [''_user_can_delete_x'' \<mapsto> Method (returning PyNone)]) Group
      = Some NoOpinion
   \<and> calls (snd (has_perm (start (sample_user 1 True False False)) ''app.delete_x''
        (Some (sample_entity [''_user_can_delete_x'' \<mapsto> Method (returning PyNone)]))))
      = [ModelPermCheck ''app.delete_x'', PredicateCall (PyInt 7) ''_user_can_delete_x'',
         ModelPermCheck ''app.delete_x'']
   \<and> fst (has_perm (start (sample_user 1 True False False)) ''app.delete_x''
        (Some (sample_entity [''_user_can_delete_x'' \<mapsto> Method (returning PyNone)])))
      = Return (PyBool True)"
  by (simp add: run_defs source_decision_def)

subsection \<open>C6: an inactive user\<close>

text \<open>
  Claim C6. For every inactive user, any permission and any object (or none),
  \<open>has_perm\<close> returns \<open>False\<close> and leaves the state as it was: no cache entry is created,
  the cache is not even read, and neither the model-level check nor an access method is
  called. The three permission-set functions return the empty set, the state unchanged.
\<close>

theorem inactive_denied:
  assumes "\<not> is_active (user_obj st)"
  shows "has_perm st perm obj_opt = (Return (PyBool False), st)
       \<and> get_all_permissions ev st obj_opt = (Return {}, st)
       \<and> get_user_permissions ev st obj_opt = (Return {}, st)
       \<and> get_group_permissions ev st obj_opt = (Return {}, st)"
proof (cases obj_opt)
  case None
  then show ?thesis
    by (simp add: has_perm_def get_all_permissions_def get_user_permissions_def
          get_group_permissions_def get_object_permissions_def)
next
  case (Some obj)
  with assms show ?thesis
    by (simp add: has_perm_Some get_object_permission_inactive get_all_permissions_def
          get_user_permissions_def get_group_permissions_def get_object_permissions_def)
qed

text \<open>An inactive user who holds the permission, on an object whose method would grant.\<close>

theorem inactive_denied_witness:
  "\<not> is_active (user_obj (start (sample_user 1 False False False)))
   \<and> has_perm (start (sample_user 1 False False False)) ''app.delete_x''
       (Some (sample_entity [''_user_can_delete_x'' \<mapsto> Method (owner_only 1)]))
     = (Return (PyBool False), start (sample_user 1 False False False))
   \<and> get_all_permissions (sample_env False) (start (sample_user 1 False False False))
       (Some (sample_entity [''_user_can_delete_x'' \<mapsto> Method (owner_only 1)]))
     = (Return {}, start (sample_user 1 False False False))"
  using inactive_denied [of "start (sample_user 1 False False False)" "''app.delete_x''"
      "Some (sample_entity [''_user_can_delete_x'' \<mapsto> Method (owner_only 1)])" "sample_env False"]
  by (simp add: start_def sample_user_def OLPMixin_init_def)

subsection \<open>C2: the model-level permission comes first\<close>

text \<open>
  Claim C2, amended. For every active user who lacks the model-level permission: a
  resolution of either source that finds no cached entry for its key returns \<open>False\<close>
  (\<open>Denied\<close>) after the model-level check alone, whatever access methods the object has,
  and writes that \<open>False\<close> to the cache under the key; when neither source has a cached
  entry, \<open>has_perm\<close> returns \<open>False\<close>, calling no access method, and both entries are
  written.
\<close>

theorem no_model_perm_denied:
  assumes "is_active (user_obj st)" and "\<not> has_model_perm (user_obj st) perm"
  shows "(cache_lookup st (perm_cache_name from_name perm (pk obj)) = None \<longrightarrow>
           (\<exists>st'. get_object_permission perm st obj from_name = (Return (PyBool False), st')
              \<and> calls st' = calls st @ [ModelPermCheck perm]
              \<and> cache_lookup st' =
                  (cache_lookup st)(perm_cache_name from_name perm (pk obj) \<mapsto> PyBool False)))
       \<and> (cache_lookup st (perm_cache_name User perm (pk obj)) = None
          \<and> cache_lookup st (perm_cache_name Group perm (pk obj)) = None \<longrightarrow>
           (\<exists>st'. has_perm st perm (Some obj) = (Return (PyBool False), st')
              \<and> calls st' = calls st @ [ModelPermCheck perm, ModelPermCheck perm]
              \<and> cache_lookup st' =
                  (cache_lookup st)(perm_cache_name User perm (pk obj) \<mapsto> PyBool False,
                                    perm_cache_name Group perm (pk obj) \<mapsto> PyBool False)))"
proof (intro conjI impI)
  assume miss: "cache_lookup st (perm_cache_name from_name perm (pk obj)) = None"
  obtain r st' where run: "get_object_permission perm st obj from_name = (r, st')"
    by (cases "get_object_permission perm st obj from_name")
  from miss_no_model_perm [OF assms miss run] run
  show "\<exists>st'. get_object_permission perm st obj from_name = (Return (PyBool False), st')
          \<and> calls st' = calls st @ [ModelPermCheck perm]
          \<and> cache_lookup st' =
              (cache_lookup st)(perm_cache_name from_name perm (pk obj) \<mapsto> PyBool False)"
    by simp
next
  assume "cache_lookup st (perm_cache_name User perm (pk obj)) = None
          \<and> cache_lookup st (perm_cache_name Group perm (pk obj)) = None"
  then have mu: "cache_lookup st (perm_cache_name User perm (pk obj)) = None"
    and mg: "cache_lookup st (perm_cache_name Group perm (pk obj)) = None" by simp_all
  obtain r1 st1 where run1: "get_object_permission perm st obj User = (r1, st1)"
    by (cases "get_object_permission perm st obj User")
  note u = miss_no_model_perm [OF assms mu run1]
  have act1: "is_active (user_obj st1)"
    using get_object_permission_active [OF run1] assms(1) by simp
  have mp1: "\<not> has_model_perm (user_obj st1) perm"
    using get_object_permission_has_model_perm [OF run1] assms(2) by simp
  have mg1: "cache_lookup st1 (perm_cache_name Group perm (pk obj)) = None"
    using u mg perm_cache_name_sources [of perm "pk obj" perm "pk obj"] by auto
  obtain r2 st2 where run2: "get_object_permission perm st1 obj Group = (r2, st2)"
    by (cases "get_object_permission perm st1 obj Group")
  note g = miss_no_model_perm [OF act1 mp1 mg1 run2]
  from u g run1 run2
  show "\<exists>st'. has_perm st perm (Some obj) = (Return (PyBool False), st')
          \<and> calls st' = calls st @ [ModelPermCheck perm, ModelPermCheck perm]
          \<and> cache_lookup st' =
              (cache_lookup st)(perm_cache_name User perm (pk obj) \<mapsto> PyBool False,
                                perm_cache_name Group perm (pk obj) \<mapsto> PyBool False)"
    by (simp add: has_perm_Some)
qed

text \<open>
  User 2 holds \<open>app.delete_x\<close> only; the object's method for \<open>app.view_x\<close> would grant, and
  is never called.
\<close>

theorem no_model_perm_denied_witness:
  "is_active (user_obj (start (sample_user 2 True False False)))
   \<and> \<not> has_model_perm (user_obj (start (sample_user 2 True False False))) ''app.view_x''
   \<and> cache_lookup (start (sample_user 2 True False False))
        (perm_cache_name User ''app.view_x'' (PyInt 7)) = None
   \<and> cache_lookup (start (sample_user 2 True False False))
        (perm_cache_name Group ''app.view_x'' (PyInt 7)) = None
   \<and> fst (has_perm (start (sample_user 2 True False False)) ''app.view_x''
        (Some (sample_entity [''_user_can_view_x'' \<mapsto> Method (returning (PyBool True))])))
      = Return (PyBool False)
   \<and> calls (snd (has_perm (start (sample_user 2 True False False)) ''app.view_x''
        (Some (sample_entity [''_user_can_view_x'' \<mapsto> Method (returning (PyBool True))]))))
      = [ModelPermCheck ''app.view_x'', ModelPermCheck ''app.view_x'']
   \<and> cache_lookup (snd (has_perm (start (sample_user 2 True False False)) ''app.view_x''
        (Some (sample_entity [''_user_can_view_x'' \<mapsto> Method (returning (PyBool True))]))))
        ''user-app.view_x-7'' = Some (PyBool False)"
  using no_model_perm_denied [of "start (sample_user 2 True False False)" "''app.view_x''" User
      "sample_entity [''_user_can_view_x'' \<mapsto> Method (returning (PyBool True))]"]
  by (simp add: run_defs)

text \<open>
  The claim as first stated fails in two places. An inactive user who lacks the
  permission is refused, but nothing is written to the cache. And a resolution reads the
  cache before the model-level check: with a granting entry already cached under the key
  (written while the user still held the permission), the user who now lacks the
  permission is granted.
\<close>

theorem no_model_perm_cache_counterexample:
  "\<not> has_model_perm (user_obj (start (sample_user 2 False False False))) ''app.view_x''
   \<and> fst (get_object_permission ''app.view_x'' (start (sample_user 2 False False False))
        (sample_entity Map.empty) User) = Return (PyBool False)
   \<and> cache_lookup (snd (get_object_permission ''app.view_x''
        (start (sample_user 2 False False False)) (sample_entity Map.empty) User))
        (perm_cache_name User ''app.view_x'' (pk (sample_entity Map.empty))) = None
   \<and> \<not> has_model_perm (user_obj (cache_store ''user-app.view_x-7'' (PyBool True)
          (start (sample_user 2 True False False)))) ''app.view_x''
   \<and> fst (has_perm (cache_store ''user-app.view_x-7'' (PyBool True)
          (start (sample_user 2 True False False))) ''app.view_x''
          (Some (sample_entity Map.empty))) = Return (PyBool True)"
  by (simp add: run_defs)

subsection \<open>C3: the name of the access method\<close>

lemma call_access_fn_same_method:
  assumes "pk obj' = pk obj"
      and "attrs obj' (access_fn_name from_name perm) = attrs obj (access_fn_name from_name perm)"
  shows "call_access_fn from_name perm obj' st = call_access_fn from_name perm obj st"
  using assms by (auto simp: call_access_fn_def split: option.splits attr.splits)

lemma get_object_permission_same_method:
  assumes "pk obj' = pk obj"
      and "attrs obj' (access_fn_name from_name perm) = attrs obj (access_fn_name from_name perm)"
  shows "get_object_permission perm st obj' from_name = get_object_permission perm st obj from_name"
  by (auto simp: get_object_permission_def Let_def call_access_fn_same_method [OF assms] assms(1)
        split: option.splits)

text \<open>
  Claim C3, amended. The attribute the backend consults is named
  \<open>_{source}_can_{code}\<close>, with a leading underscore, where \<open>code\<close> is what follows the
  last dot of the permission string (\<open>_user_can_delete_x\<close> for the source \<open>user\<close> and the
  permission \<open>app.delete_x\<close>). For an active user who holds the model-level permission and
  has no cached entry for the key: when the object has no attribute of that name the
  decision is \<open>None\<close> (\<open>NoOpinion\<close>), cached, and no method is called; when the attribute is
  a method it is called once, with the user or with the user's groups, and its result
  decides. No other attribute of the object matters.
\<close>

theorem access_method_lookup:
  assumes "is_active (user_obj st)" and "has_model_perm (user_obj st) perm"
      and "cache_lookup st (perm_cache_name from_name perm (pk obj)) = None"
  shows "(attrs obj (''_'' @ source_name from_name @ ''_can_'' @ last_segment perm) = None \<longrightarrow>
           (\<exists>st'. get_object_permission perm st obj from_name = (Return PyNone, st')
              \<and> calls st' = calls st @ [ModelPermCheck perm]
              \<and> cache_lookup st' =
                  (cache_lookup st)(perm_cache_name from_name perm (pk obj) \<mapsto> PyNone)))
       \<and> (\<forall>f. attrs obj (''_'' @ source_name from_name @ ''_can_'' @ last_segment perm)
                 = Some (Method f) \<longrightarrow>
           (\<exists>st'. get_object_permission perm st obj from_name =
                    (case f (method_arg from_name (user_obj (ensure_cache st))) of
                       Return v \<Rightarrow> Return v
                     | Raise e \<Rightarrow> if e = PermissionDenied then Return (PyBool False) else Raise e,
                     st')
              \<and> calls st' = calls st @ [ModelPermCheck perm, PredicateCall (pk obj)
                    (''_'' @ source_name from_name @ ''_can_'' @ last_segment perm)]))
       \<and> (\<forall>obj'. pk obj' = pk obj
              \<and> attrs obj' (''_'' @ source_name from_name @ ''_can_'' @ last_segment perm)
                  = attrs obj (''_'' @ source_name from_name @ ''_can_'' @ last_segment perm) \<longrightarrow>
            get_object_permission perm st obj' from_name
              = get_object_permission perm st obj from_name)"
proof (intro conjI impI allI)
  assume a: "attrs obj (''_'' @ source_name from_name @ ''_can_'' @ last_segment perm) = None"
  obtain r st' where run: "get_object_permission perm st obj from_name = (r, st')"
    by (cases "get_object_permission perm st obj from_name")
  from a have "attrs obj (access_fn_name from_name perm) = None"
    by (simp add: access_fn_name_def)
  from miss_absent [OF assms this run] run
  show "\<exists>st'. get_object_permission perm st obj from_name = (Return PyNone, st')
          \<and> calls st' = calls st @ [ModelPermCheck perm]
          \<and> cache_lookup st' =
              (cache_lookup st)(perm_cache_name from_name perm (pk obj) \<mapsto> PyNone)"
    by simp
next
  fix f
  assume a: "attrs obj (''_'' @ source_name from_name @ ''_can_'' @ last_segment perm)
               = Some (Method f)"
  obtain r st' where run: "get_object_permission perm st obj from_name = (r, st')"
    by (cases "get_object_permission perm st obj from_name")
  from a have m: "attrs obj (access_fn_name from_name perm) = Some (Method f)"
    by (simp add: access_fn_name_def)
  from miss_method [OF assms m run] run
  show "\<exists>st'. get_object_permission perm st obj from_name =
            (case f (method_arg from_name (user_obj (ensure_cache st))) of
               Return v \<Rightarrow> Return v
             | Raise e \<Rightarrow> if e = PermissionDenied then Return (PyBool False) else Raise e,
             st')
          \<and> calls st' = calls st @ [ModelPermCheck perm, PredicateCall (pk obj)
                (''_'' @ source_name from_name @ ''_can_'' @ last_segment perm)]"
    by (auto simp: access_fn_name_def split: outcome.splits if_splits)
next
  fix obj' :: entity
  assume "pk obj' = pk obj
      \<and> attrs obj' (''_'' @ source_name from_name @ ''_can_'' @ last_segment perm)
          = attrs obj (''_'' @ source_name from_name @ ''_can_'' @ last_segment perm)"
  then show "get_object_permission perm st obj' from_name
               = get_object_permission perm st obj from_name"
    by (intro get_object_permission_same_method) (simp_all add: access_fn_name_def)
qed

text \<open>
  User 1 asks for \<open>app.delete_x\<close>: the method \<open>_user_can_delete_x\<close> is called and grants;
  on an object without attributes the decision is \<open>None\<close>.
\<close>

theorem access_method_lookup_witness:
  "is_active (user_obj (start (sample_user 1 True False False)))
   \<and> has_model_perm (user_obj (start (sample_user 1 True False False))) ''app.delete_x''
   \<and> cache_lookup (start (sample_user 1 True False False))
        (perm_cache_name User ''app.delete_x'' (PyInt 7)) = None
   \<and> ''_'' @ source_name User @ ''_can_'' @ last_segment ''app.delete_x'' = ''_user_can_delete_x''
   \<and> fst (get_object_permission ''app.delete_x'' (start (sample_user 1 True False False))
        (sample_entity [''_user_can_delete_x'' \<mapsto> Method (owner_only 1)]) User)
      = Return (PyBool True)
   \<and> calls (snd (get_object_permission ''app.delete_x'' (start (sample_user 1 True False False))
        (sample_entity [''_user_can_delete_x'' \<mapsto> Method (owner_only 1)]) User))
      = [ModelPermCheck ''app.delete_x'', PredicateCall (PyInt 7) ''_user_can_delete_x'']
   \<and> fst (get_object_permission ''app.delete_x'' (start (sample_user 1 True False False))
        (sample_entity Map.empty) User) = Return PyNone"
  using access_method_lookup [of "start (sample_user 1 True False False)" "''app.delete_x''" User
      "sample_entity [''_user_can_delete_x'' \<mapsto> Method (owner_only 1)]"]
    access_method_lookup [of "start (sample_user 1 True False False)" "''app.delete_x''" User
      "sample_entity Map.empty"]
  by (simp add: run_defs)

text \<open>
  The claim as first stated names the attribute without the underscore. An object whose
  only attribute is the refusing method \<open>user_can_delete_x\<close>: the method is not called and
  the decision of the user source is \<open>None\<close>, not a refusal.
\<close>

theorem unprefixed_method_counterexample:
  "attrs (sample_entity [''user_can_delete_x'' \<mapsto> Method (returning (PyBool False))])
      ''user_can_delete_x'' \<noteq> None
   \<and> fst (get_object_permission ''app.delete_x'' (start (sample_user 1 True False False))
        (sample_entity [''user_can_delete_x'' \<mapsto> Method (returning (PyBool False))]) User)
      = Return PyNone
   \<and> calls (snd (get_object_permission ''app.delete_x'' (start (sample_user 1 True False False))
        (sample_entity [''user_can_delete_x'' \<mapsto> Method (returning (PyBool False))]) User))
      = [ModelPermCheck ''app.delete_x'']"
  by (simp add: run_defs)

subsection \<open>C4: a cached decision is reused\<close>

lemma call_access_fn_calls_shape:
  assumes "call_access_fn from_name perm obj st = (r, st')"
  shows "calls st' = calls st
       \<or> calls st' = calls st @ [PredicateCall (pk obj) (access_fn_name from_name perm)]"
  using assms
  by (auto simp: call_access_fn_def Let_def calls_log_call
        split: option.splits attr.splits if_splits outcome.splits py_error.splits)

lemma get_object_permission_calls_shape:
  assumes "get_object_permission perm st obj from_name = (r, st')"
  shows "calls st' = calls st \<or> calls st' = calls st @ [ModelPermCheck perm]
       \<or> calls st' = calls st @ [ModelPermCheck perm,
                                  PredicateCall (pk obj) (access_fn_name from_name perm)]"
proof (cases "is_active (user_obj st) \<and> cache_lookup st (perm_cache_name from_name perm (pk obj)) = None")
  case False
  with assms show ?thesis
    by (cases "is_active (user_obj st)")
       (auto simp: get_object_permission_inactive get_object_permission_hit)
next
  case True
  show ?thesis
  proof (cases "has_model_perm (user_obj st) perm")
    case False
    with True assms show ?thesis
      by (auto simp: get_object_permission_miss Let_def calls_cache_store calls_log_call
            calls_ensure_cache)
  next
    case mp: True
    obtain r3 st3 where c: "call_access_fn from_name perm obj
        (log_call (ModelPermCheck perm) (ensure_cache st)) = (r3, st3)"
      by (cases "call_access_fn from_name perm obj (log_call (ModelPermCheck perm) (ensure_cache st))")
    from True mp assms c have "calls st' = calls st3"
      by (auto simp: get_object_permission_miss Let_def calls_cache_store split: outcome.splits)
    with call_access_fn_calls_shape [OF c] show ?thesis
      by (auto simp: calls_log_call calls_ensure_cache)
  qed
qed

lemma access_fn_name_sources: "access_fn_name User perm \<noteq> access_fn_name Group perm"
  by (simp add: access_fn_name_def)

lemma get_object_permission_calls_count:
  assumes "get_object_permission perm st obj from_name = (r, st')"
  shows "\<exists>es. calls st' = calls st @ es
          \<and> (\<forall>n. count_list es (PredicateCall (pk obj) n)
                 \<le> (if n = access_fn_name from_name perm then 1 else 0))"
  using get_object_permission_calls_shape [OF assms]
proof (elim disjE)
  assume "calls st' = calls st"
  then have "calls st' = calls st @ []" by simp
  then show ?thesis by (intro exI [of _ "[]"]) simp
next
  assume "calls st' = calls st @ [ModelPermCheck perm]"
  then show ?thesis by (intro exI [of _ "[ModelPermCheck perm]"]) simp
next
  assume "calls st' = calls st @ [ModelPermCheck perm,
            PredicateCall (pk obj) (access_fn_name from_name perm)]"
  then show ?thesis
    by (intro exI [of _ "[ModelPermCheck perm,
            PredicateCall (pk obj) (access_fn_name from_name perm)]"]) simp
qed

lemma has_perm_calls_once:
  assumes "has_perm st perm (Some obj) = (r, st1)"
  shows "\<exists>es. calls st1 = calls st @ es \<and> (\<forall>n. count_list es (PredicateCall (pk obj) n) \<le> 1)"
proof -
  obtain ra sa where a: "get_object_permission perm st obj User = (ra, sa)"
    by (cases "get_object_permission perm st obj User")
  obtain rb sb where b: "get_object_permission perm sa obj Group = (rb, sb)"
    by (cases "get_object_permission perm sa obj Group")
  from get_object_permission_calls_count [OF a] obtain ea where
    ea: "calls sa = calls st @ ea"
    and ca: "\<And>n. count_list ea (PredicateCall (pk obj) n)
                 \<le> (if n = access_fn_name User perm then 1 else 0)" by blast
  from get_object_permission_calls_count [OF b] obtain eb where
    eb: "calls sb = calls sa @ eb"
    and cb: "\<And>n. count_list eb (PredicateCall (pk obj) n)
                 \<le> (if n = access_fn_name Group perm then 1 else 0)" by blast
  from assms a b have "st1 = sa \<or> st1 = sb"
    by (auto simp: has_perm_Some split: outcome.splits if_splits)
  then show ?thesis
  proof
    assume "st1 = sa"
    have "count_list ea (PredicateCall (pk obj) n) \<le> 1" for n
      using ca [of n] by (auto split: if_splits)
    with ea \<open>st1 = sa\<close> show ?thesis by blast
  next
    assume s: "st1 = sb"
    have "count_list (ea @ eb) (PredicateCall (pk obj) n) \<le> 1" for n
      using ca [of n] cb [of n] access_fn_name_sources [of perm]
      by (auto split: if_splits)
    moreover from ea eb s have "calls st1 = calls st @ (ea @ eb)" by simp
    ultimately show ?thesis by blast
  qed
qed

lemma has_perm_twice:
  assumes "has_perm st perm (Some obj) = (Return r, st1)"
  shows "has_perm st1 perm (Some obj) = (Return r, st1)"
proof (cases "is_active (user_obj st)")
  case False
  with assms show ?thesis
    by (auto simp: has_perm_Some get_object_permission_inactive)
next
  case True
  from assms obtain ua sa where ua: "get_object_permission perm st obj User = (Return ua, sa)"
    by (auto simp: has_perm_Some split: prod.splits outcome.splits)
  have act_a: "is_active (user_obj sa)"
    using get_object_permission_active [OF ua] True by simp
  have ca: "cache_lookup sa (perm_cache_name User perm (pk obj)) = Some ua"
    using get_object_permission_cached [OF True ua] .
  show ?thesis
  proof (cases "truthy ua")
    case True
    with assms ua have "r = ua" "st1 = sa" by (auto simp: has_perm_Some)
    with True act_a ca show ?thesis
      by (simp add: has_perm_Some get_object_permission_hit)
  next
    case False
    with assms ua obtain ga where ga: "get_object_permission perm sa obj Group = (Return ga, st1)"
      and r: "r = (if truthy ga then ga else PyBool (ua = PyNone \<and> ga = PyNone))"
      by (auto simp: has_perm_Some split: prod.splits outcome.splits)
    have act1: "is_active (user_obj st1)"
      using get_object_permission_active [OF ga] act_a by simp
    have c1: "cache_lookup st1 (perm_cache_name Group perm (pk obj)) = Some ga"
      using get_object_permission_cached [OF act_a ga] .
    have c2: "cache_lookup st1 (perm_cache_name User perm (pk obj)) = Some ua"
      using get_object_permission_keeps [OF ga ca] .
    from False r act1 c1 c2 show ?thesis
      by (simp add: has_perm_Some get_object_permission_hit)
  qed
qed

lemma miss_checks_model_perm:
  assumes "is_active (user_obj st)"
      and "cache_lookup st (perm_cache_name from_name perm (pk obj)) = None"
  shows "\<exists>es. calls (snd (get_object_permission perm st obj from_name))
                 = calls st @ ModelPermCheck perm # es"
proof -
  obtain r st' where run: "get_object_permission perm st obj from_name = (r, st')"
    by (cases "get_object_permission perm st obj from_name")
  have "calls st' \<noteq> calls st"
  proof (cases "has_model_perm (user_obj st) perm")
    case False
    with miss_no_model_perm [OF assms(1) _ assms(2) run] show ?thesis by simp
  next
    case True
    obtain r3 st3 where c: "call_access_fn from_name perm obj
        (log_call (ModelPermCheck perm) (ensure_cache st)) = (r3, st3)"
      by (cases "call_access_fn from_name perm obj (log_call (ModelPermCheck perm) (ensure_cache st))")
    from True assms run c have "calls st' = calls st3"
      by (auto simp: get_object_permission_miss Let_def calls_cache_store split: outcome.splits)
    with call_access_fn_frame [OF c] show ?thesis
      by (auto simp: calls_log_call calls_ensure_cache)
  qed
  with get_object_permission_calls_shape [OF run] run show ?thesis by auto
qed

text \<open>
  Claim C4, amended. For every active user, source, permission and object: while an entry
  is cached under the key of (source, permission, object key), a resolution for that key
  returns the cached value and changes nothing, so neither the model-level check nor an
  access method is called. A call of \<open>has_perm\<close> that returns calls each access method
  of the object at most once, and a second call with the same arguments on the state it
  leaves returns the same value and calls nothing. A user built by \<open>OLPMixin.__init__\<close>
  starts with an empty cache, and a resolution that finds no entry starts again with the
  model-level check.
\<close>

theorem cached_decision_reused:
  "(is_active (user_obj st)
      \<and> cache_lookup st (perm_cache_name from_name perm (pk obj)) = Some v \<longrightarrow>
        get_object_permission perm st obj from_name = (Return v, st))
   \<and> (\<forall>r st1. has_perm st perm (Some obj) = (Return r, st1) \<longrightarrow>
        has_perm st1 perm (Some obj) = (Return r, st1)
        \<and> (\<exists>es. calls st1 = calls st @ es
              \<and> (\<forall>n. count_list es (PredicateCall (pk obj) n) \<le> 1)))
   \<and> cache_lookup \<lparr>user_obj = OLPMixin_init uid active super anon gs mp, calls = cs\<rparr> k = None
   \<and> (is_active (user_obj st)
      \<and> cache_lookup st (perm_cache_name from_name perm (pk obj)) = None \<longrightarrow>
        (\<exists>es. calls (snd (get_object_permission perm st obj from_name))
                 = calls st @ ModelPermCheck perm # es))"
proof (intro conjI impI allI)
  assume "is_active (user_obj st)
      \<and> cache_lookup st (perm_cache_name from_name perm (pk obj)) = Some v"
  then show "get_object_permission perm st obj from_name = (Return v, st)"
    by (simp add: get_object_permission_hit)
next
  fix r st1
  assume "has_perm st perm (Some obj) = (Return r, st1)"
  then show "has_perm st1 perm (Some obj) = (Return r, st1)"
    by (rule has_perm_twice)
next
  fix r st1
  assume "has_perm st perm (Some obj) = (Return r, st1)"
  then show "\<exists>es. calls st1 = calls st @ es
              \<and> (\<forall>n. count_list es (PredicateCall (pk obj) n) \<le> 1)"
    by (rule has_perm_calls_once)
next
  show "cache_lookup \<lparr>user_obj = OLPMixin_init uid active super anon gs mp, calls = cs\<rparr> k = None"
    by (simp add: cache_lookup_def OLPMixin_init_def)
next
  assume "is_active (user_obj st)
      \<and> cache_lookup st (perm_cache_name from_name perm (pk obj)) = None"
  then show "\<exists>es. calls (snd (get_object_permission perm st obj from_name))
                 = calls st @ ModelPermCheck perm # es"
    by (simp add: miss_checks_model_perm)
qed

text \<open>
  User 1 is granted by the object's method; the method is called once, the grant is
  cached, and the second call reads it.
\<close>

theorem cached_decision_reused_witness:
  "fst (has_perm (start (sample_user 1 True False False)) ''app.delete_x''
        (Some (sample_entity [''_user_can_delete_x'' \<mapsto> Method (owner_only 1)])))
      = Return (PyBool True)
   \<and> calls (snd (has_perm (start (sample_user 1 True False False)) ''app.delete_x''
        (Some (sample_entity [''_user_can_delete_x'' \<mapsto> Method (owner_only 1)]))))
      = [ModelPermCheck ''app.delete_x'', PredicateCall (PyInt 7) ''_user_can_delete_x'']
   \<and> has_perm (snd (has_perm (start (sample_user 1 True False False)) ''app.delete_x''
        (Some (sample_entity [''_user_can_delete_x'' \<mapsto> Method (owner_only 1)]))))
        ''app.delete_x''
        (Some (sample_entity [''_user_can_delete_x'' \<mapsto> Method (owner_only 1)]))
      = (Return (PyBool True),
         snd (has_perm (start (sample_user 1 True False False)) ''app.delete_x''
           (Some (sample_entity [''_user_can_delete_x'' \<mapsto> Method (owner_only 1)]))))
   \<and> cache_lookup (snd (has_perm (start (sample_user 1 True False False)) ''app.delete_x''
        (Some (sample_entity [''_user_can_delete_x'' \<mapsto> Method (owner_only 1)]))))
        (perm_cache_name User ''app.delete_x'' (PyInt 7)) = Some (PyBool True)
   \<and> cache_lookup (start (sample_user 1 True False False))
        (perm_cache_name User ''app.delete_x'' (PyInt 7)) = None"
  using cached_decision_reused [of "start (sample_user 1 True False False)" User
      "''app.delete_x''" "sample_entity [''_user_can_delete_x'' \<mapsto> Method (owner_only 1)]"]
  by (simp add: run_defs)

text \<open>
  The claim as first stated fails in two places. An access method that raises an
  exception other than \<open>PermissionDenied\<close> leaves no cache entry, so two calls of
  \<open>has_perm\<close> with the same arguments call it twice. And a user who has been made
  inactive is refused although a grant is cached under the key.
\<close>

theorem cached_decision_counterexample:
  "calls (snd (has_perm
      (snd (has_perm (start (sample_user 1 True False False)) ''app.delete_x''
         (Some (sample_entity
            [''_user_can_delete_x'' \<mapsto> Method (raising (OtherError ''ValueError''))]))))
      ''app.delete_x''
      (Some (sample_entity
         [''_user_can_delete_x'' \<mapsto> Method (raising (OtherError ''ValueError''))]))))
     = [ModelPermCheck ''app.delete_x'', PredicateCall (PyInt 7) ''_user_can_delete_x'',
        ModelPermCheck ''app.delete_x'', PredicateCall (PyInt 7) ''_user_can_delete_x'']
   \<and> cache_lookup (cache_store ''user-app.delete_x-7'' (PyBool True)
         (start (sample_user 1 False False False)))
        (perm_cache_name User ''app.delete_x'' (PyInt 7)) = Some (PyBool True)
   \<and> fst (get_object_permission ''app.delete_x''
         (cache_store ''user-app.delete_x-7'' (PyBool True)
            (start (sample_user 1 False False False)))
         (sample_entity Map.empty) User) = Return (PyBool False)"
  by (simp add: run_defs)

subsection \<open>C5: exceptions raised by an access method\<close>

lemma miss_method_run:
  assumes "is_active (user_obj st)" and "has_model_perm (user_obj st) perm"
      and "cache_lookup st (perm_cache_name from_name perm (pk obj)) = None"
      and "attrs obj (access_fn_name from_name perm) = Some (Method f)"
  shows "get_object_permission perm st obj from_name =
     (let st3 = log_call (PredicateCall (pk obj) (access_fn_name from_name perm))
                  (log_call (ModelPermCheck perm) (ensure_cache st))
      in case f (method_arg from_name (user_obj (ensure_cache st))) of
           Return v \<Rightarrow> (Return v, cache_store (perm_cache_name from_name perm (pk obj)) v st3)
         | Raise e \<Rightarrow>
             if e = PermissionDenied
             then (Return (PyBool False),
                   cache_store (perm_cache_name from_name perm (pk obj)) (PyBool False) st3)
             else (Raise e, st3))"
  using assms
  by (auto simp: get_object_permission_miss call_access_fn_method Let_def user_obj_log_call
        split: outcome.splits)

text \<open>
  Claim C5. An access method is called on a cache miss, for an active user who holds the
  model-level permission. When the method raises \<open>PermissionDenied\<close>, the resolution
  returns \<open>False\<close> (\<open>Denied\<close>) and writes it to the cache under the key: result and
  final state are those of the same object with a method that returns \<open>False\<close>. When the
  method raises any other exception, the exception leaves \<open>_get_object_permission\<close> and,
  for the user source, \<open>has_perm\<close>; the cache holds what it held before.
\<close>

theorem permission_denied_signal:
  assumes "is_active (user_obj st)" and "has_model_perm (user_obj st) perm"
      and "cache_lookup st (perm_cache_name from_name perm (pk obj)) = None"
      and "attrs obj (access_fn_name from_name perm) = Some (Method f)"
  shows "(f (method_arg from_name (user_obj (ensure_cache st))) = Raise PermissionDenied \<longrightarrow>
           (\<exists>st'. get_object_permission perm st obj from_name = (Return (PyBool False), st')
              \<and> source_decision perm st obj from_name = Some Denied
              \<and> cache_lookup st' =
                  (cache_lookup st)(perm_cache_name from_name perm (pk obj) \<mapsto> PyBool False)
              \<and> get_object_permission perm st
                    (obj\<lparr>attrs := (attrs obj)(access_fn_name from_name perm \<mapsto>
                       Method (\<lambda>arg. Return (PyBool False)))\<rparr>) from_name
                  = (Return (PyBool False), st')))
       \<and> (\<forall>e. f (method_arg from_name (user_obj (ensure_cache st))) = Raise e
              \<and> e \<noteq> PermissionDenied \<longrightarrow>
           (\<exists>st'. get_object_permission perm st obj from_name = (Raise e, st')
              \<and> cache_lookup st' = cache_lookup st
              \<and> (from_name = User \<longrightarrow> has_perm st perm (Some obj) = (Raise e, st'))))"
proof (intro conjI impI allI)
  assume pd: "f (method_arg from_name (user_obj (ensure_cache st))) = Raise PermissionDenied"
  let ?obj' = "obj\<lparr>attrs := (attrs obj)(access_fn_name from_name perm \<mapsto>
                       Method (\<lambda>arg. Return (PyBool False)))\<rparr>"
  let ?st' = "cache_store (perm_cache_name from_name perm (pk obj)) (PyBool False)
      (log_call (PredicateCall (pk obj) (access_fn_name from_name perm))
         (log_call (ModelPermCheck perm) (ensure_cache st)))"
  have 1: "get_object_permission perm st obj from_name = (Return (PyBool False), ?st')"
    using pd by (simp add: miss_method_run [OF assms] Let_def)
  have "cache_lookup st (perm_cache_name from_name perm (pk ?obj')) = None"
    using assms(3) by simp
  moreover have "attrs ?obj' (access_fn_name from_name perm)
      = Some (Method (\<lambda>arg. Return (PyBool False)))" by simp
  ultimately have 2: "get_object_permission perm st ?obj' from_name = (Return (PyBool False), ?st')"
    using miss_method_run [OF assms(1,2), of from_name ?obj' "\<lambda>arg. Return (PyBool False)"]
    by (simp add: Let_def)
  have 3: "cache_lookup ?st' =
      (cache_lookup st)(perm_cache_name from_name perm (pk obj) \<mapsto> PyBool False)"
    by (simp add: cache_lookup_cache_store cache_lookup_log_call cache_lookup_ensure_cache)
  have 4: "source_decision perm st obj from_name = Some Denied"
    using pd assms(2,4) by (simp add: source_decision_def)
  from 1 2 3 4
  show "\<exists>st'. get_object_permission perm st obj from_name = (Return (PyBool False), st')
          \<and> source_decision perm st obj from_name = Some Denied
          \<and> cache_lookup st' =
              (cache_lookup st)(perm_cache_name from_name perm (pk obj) \<mapsto> PyBool False)
          \<and> get_object_permission perm st ?obj' from_name = (Return (PyBool False), st')"
    by blast
next
  fix e
  assume "f (method_arg from_name (user_obj (ensure_cache st))) = Raise e
            \<and> e \<noteq> PermissionDenied"
  then have e: "f (method_arg from_name (user_obj (ensure_cache st))) = Raise e"
    and ne: "e \<noteq> PermissionDenied" by simp_all
  let ?st' = "log_call (PredicateCall (pk obj) (access_fn_name from_name perm))
         (log_call (ModelPermCheck perm) (ensure_cache st))"
  have 1: "get_object_permission perm st obj from_name = (Raise e, ?st')"
    using e ne by (simp add: miss_method_run [OF assms] Let_def)
  have 2: "cache_lookup ?st' = cache_lookup st"
    by (simp add: cache_lookup_log_call cache_lookup_ensure_cache)
  have 3: "from_name = User \<longrightarrow> has_perm st perm (Some obj) = (Raise e, ?st')"
    using 1 by (auto simp: has_perm_Some)
  from 1 2 3
  show "\<exists>st'. get_object_permission perm st obj from_name = (Raise e, st')
          \<and> cache_lookup st' = cache_lookup st
          \<and> (from_name = User \<longrightarrow> has_perm st perm (Some obj) = (Raise e, st'))"
    by blast
qed

text \<open>
  A method that raises \<open>PermissionDenied\<close> against one that returns \<open>False\<close>, and a
  method that raises another exception.
\<close>

theorem permission_denied_signal_witness:
  "get_object_permission ''app.delete_x'' (start (sample_user 1 True False False))
      (sample_entity [''_user_can_delete_x'' \<mapsto> Method (raising PermissionDenied)]) User
     = get_object_permission ''app.delete_x'' (start (sample_user 1 True False False))
      (sample_entity [''_user_can_delete_x'' \<mapsto> Method (returning (PyBool False))]) User
   \<and> fst (get_object_permission ''app.delete_x'' (start (sample_user 1 True False False))
      (sample_entity [''_user_can_delete_x'' \<mapsto> Method (raising PermissionDenied)]) User)
     = Return (PyBool False)
   \<and> cache_lookup (snd (get_object_permission ''app.delete_x''
        (start (sample_user 1 True False False))
        (sample_entity [''_user_can_delete_x'' \<mapsto> Method (raising PermissionDenied)]) User))
        ''user-app.delete_x-7'' = Some (PyBool False)
   \<and> fst (has_perm (start (sample_user 1 True False False)) ''app.delete_x''
        (Some (sample_entity
           [''_user_can_delete_x'' \<mapsto> Method (raising (OtherError ''ValueError''))])))
     = Raise (OtherError ''ValueError'')
   \<and> cache_lookup (snd (has_perm (start (sample_user 1 True False False)) ''app.delete_x''
        (Some (sample_entity
           [''_user_can_delete_x'' \<mapsto> Method (raising (OtherError ''ValueError''))]))))
        ''user-app.delete_x-7'' = None"
  using permission_denied_signal [of "start (sample_user 1 True False False)" "''app.delete_x''"
      User "sample_entity [''_user_can_delete_x'' \<mapsto> Method (raising PermissionDenied)]"
      "raising PermissionDenied"]
    permission_denied_signal [of "start (sample_user 1 True False False)" "''app.delete_x''"
      User "sample_entity
         [''_user_can_delete_x'' \<mapsto> Method (raising (OtherError ''ValueError''))]"
      "raising (OtherError ''ValueError'')"]
  by (simp add: run_defs)

subsection \<open>C7: the superuser\<close>

text \<open>
  Claim C7. For every active superuser while \<open>DJEM_UNIVERSAL_OLP\<close> is off:
  \<open>OLPMixin.has_perm\<close> returns \<open>True\<close> for any permission and any object (or none),
  whatever the model-level check would say, and leaves the state as it was, so no access
  method is called and nothing is cached; and the three permission-set functions return,
  for an object, all the permissions of the object's model. A superuser is a stored user
  and as such is not anonymous, which is what the guard of line 213 asks of the user
  before the superuser branch of line 223.
\<close>

theorem superuser_bypass:
  assumes "is_active (user_obj st)" and "is_superuser (user_obj st)" and "\<not> universal_olp ev"
  shows "OLPMixin_has_perm ev st perm obj_opt = (Return (PyBool True), st)
       \<and> (\<not> is_anonymous (user_obj st) \<longrightarrow>
            get_all_permissions ev st (Some obj) = (Return (set (perms_for_model ev obj)), st)
          \<and> get_user_permissions ev st (Some obj) = (Return (set (perms_for_model ev obj)), st)
          \<and> get_group_permissions ev st (Some obj) = (Return (set (perms_for_model ev obj)), st))"
  using assms
  by (simp add: OLPMixin_has_perm_def super_has_perm_def get_all_permissions_def
        get_user_permissions_def get_group_permissions_def get_object_permissions_def)

text \<open>
  A superuser on an object whose methods would refuse: granted, nothing called, nothing
  cached, and the permission set is that of the model \<open>x\<close> of the application \<open>app\<close>.
\<close>

theorem superuser_bypass_witness:
  "is_active (user_obj (start (sample_superuser 1)))
   \<and> is_superuser (user_obj (start (sample_superuser 1)))
   \<and> \<not> is_anonymous (user_obj (start (sample_superuser 1)))
   \<and> \<not> universal_olp (sample_env False)
   \<and> OLPMixin_has_perm (sample_env False) (start (sample_superuser 1)) ''app.view_x''
        (Some (sample_entity [''_user_can_view_x'' \<mapsto> Method (returning (PyBool False)),
                              ''_group_can_view_x'' \<mapsto> Method (returning (PyBool False))]))
      = (Return (PyBool True), start (sample_superuser 1))
   \<and> get_all_permissions (sample_env False) (start (sample_superuser 1))
        (Some (sample_entity [''_user_can_view_x'' \<mapsto> Method (returning (PyBool False)),
                              ''_group_can_view_x'' \<mapsto> Method (returning (PyBool False))]))
      = (Return {''app.view_x'', ''app.delete_x''}, start (sample_superuser 1))"
  using superuser_bypass [of "start (sample_superuser 1)" "sample_env False"
      "''app.view_x''"
      "Some (sample_entity [''_user_can_view_x'' \<mapsto> Method (returning (PyBool False)),
                            ''_group_can_view_x'' \<mapsto> Method (returning (PyBool False))])"
      "sample_entity [''_user_can_view_x'' \<mapsto> Method (returning (PyBool False)),
                      ''_group_can_view_x'' \<mapsto> Method (returning (PyBool False))]"]
  by (simp add: start_def sample_superuser_def sample_env_def sample_entity_def OLPMixin_init_def
        perms_for_model_def)

subsection \<open>C8: cache keys\<close>

text \<open>
  Claim C8, amended. The cache key is the text \<open>source-permission-key\<close>. For object keys
  that are non-negative integers, two different triples of source, permission and object
  key never have the same cache key, whatever the permission strings are.
\<close>

theorem perm_cache_name_distinct:
  assumes "(s1, p1, n1) \<noteq> (s2, p2, n2)"
  shows "perm_cache_name s1 p1 (PyInt (int n1)) \<noteq> perm_cache_name s2 p2 (PyInt (int n2))"
proof
  assume eq: "perm_cache_name s1 p1 (PyInt (int n1)) = perm_cache_name s2 p2 (PyInt (int n2))"
  have "CHR ''-'' \<notin> set (py_format (PyInt (int n1)))"
    and "CHR ''-'' \<notin> set (py_format (PyInt (int n2)))"
    by (simp_all add: show_nat_no_dash)
  from perm_cache_name_inj [OF this eq]
  have "s1 = s2" and "p1 = p2" and "show_nat n1 = show_nat n2" by simp_all
  with show_nat_inj [of n1 n2] assms show False by simp
qed

text \<open>
  The keys 1 and 11 under one permission.
\<close>

theorem perm_cache_name_distinct_witness:
  "(User, ''app.view_x'', 1::nat) \<noteq> (User, ''app.view_x'', 11)
   \<and> perm_cache_name User ''app.view_x'' (PyInt 1) = ''user-app.view_x-1''
   \<and> perm_cache_name User ''app.view_x'' (PyInt 11) = ''user-app.view_x-11''
   \<and> perm_cache_name User ''app.view_x'' (PyInt 1) \<noteq> perm_cache_name User ''app.view_x'' (PyInt 11)"
  using perm_cache_name_distinct [of User "''app.view_x''" 1 User "''app.view_x''" 11]
  by (simp add: perm_cache_name_def show_nat.simps digit_char_def)

text \<open>
  The claim as first stated fails for keys that are strings: the hyphen that separates the
  parts may occur inside them, and two different triples share one cache key.
\<close>

theorem perm_cache_name_collision_counterexample:
  "(User, ''app.a-b'', PyStr ''c'') \<noteq> (User, ''app.a'', PyStr ''b-c'')
   \<and> perm_cache_name User ''app.a-b'' (PyStr ''c'') = perm_cache_name User ''app.a'' (PyStr ''b-c'')"
  by (simp add: perm_cache_name_def)

subsection \<open>C9: \<open>clear_perm_cache\<close>\<close>

text \<open>
  \<open>clear_perm_cache\<close> empties the object-level cache first, so the cache is empty
  afterwards even when a later statement raises; it returns when Django's three
  model-level cache attributes exist.
\<close>

lemma clear_perm_cache_resets: "cache_lookup (snd (clear_perm_cache st)) k = None"
  by (simp add: clear_perm_cache_def cache_lookup_def Let_def)

lemma clear_perm_cache_returns:
  "user_perm_cache (user_obj st) \<Longrightarrow> group_perm_cache (user_obj st) \<Longrightarrow> perm_cache (user_obj st)
     \<Longrightarrow> fst (clear_perm_cache st) = Return ()"
  by (simp add: clear_perm_cache_def Let_def)

text \<open>
  Claim C9. The claim says that \<open>clear_perm_cache\<close> completes normally for every user
  instance. On a user that \<open>OLPMixin.__init__\<close> has just built, on which no model-level
  permission has been computed yet, the first \<open>del\<close> raises \<open>AttributeError\<close>.
\<close>

theorem clear_perm_cache_fresh_raises:
  "clear_perm_cache (start (OLPMixin_init 1 True False False [] (\<lambda>p. p = ''app.delete_x'')))
     = (Raise AttributeError, start (OLPMixin_init 1 True False False [] (\<lambda>p. p = ''app.delete_x'')))"
  by (simp add: clear_perm_cache_def start_def OLPMixin_init_def Let_def)

subsection \<open>C10: the anonymous user\<close>




end
